theory Spec2Isabelle
  imports Main "HOL-Library.Word" "HOL-Library.Extended_Nat"
begin

section \<open>Shared vocabulary\<close>

text \<open>
  Go errors are values. \<open>fmt.Errorf\<close> with a plain message builds \<open>Errorf msg\<close>;
  \<open>fmt.Errorf("prefix: %w", err)\<close> wraps an existing error and builds
  \<open>Wrapf ''prefix: '' err\<close>. Errors that come out of the libraries are arbitrary
  values of the same type.
\<close>

datatype error = Errorf string | Wrapf string error

type_synonym byte = "8 word"

text \<open>
  The contexts the program creates: \<open>context.Background()\<close>, and
  \<open>context.WithTimeout(parent, d)\<close> with the duration \<open>d\<close> in nanoseconds.
  \<open>time.Duration\<close> is an \<open>int64\<close>; the only arithmetic on it is the product
  \<open>60 * time.Second\<close>, far inside the range, so durations are integers here.
\<close>

datatype Context = Background | WithTimeout Context int

definition Second :: int where
  "Second = 1000000000"

section \<open>Feed items, consumers and the state the router acts on\<close>

text \<open>
  Modelled from the spec: the declaration of \<open>media.FeedItem\<close> is not among the
  sources. The spec gives it three optional external identifiers, a category label and
  a display title; \<open>main.go\<close> reads them as \<open>TvdbId\<close>, \<open>ImdbId\<close>, \<open>TmdbId\<close>,
  \<open>Category\<close> and \<open>Title\<close>. An absent identifier is the empty string.
\<close>

record FeedItem =
  Title :: string
  Category :: string
  TvdbId :: string
  ImdbId :: string
  TmdbId :: string

text \<open>The value \<open>new(media.FeedItem)\<close> points to: every field is the empty string.\<close>

definition zeroFeedItem :: FeedItem where
  "zeroFeedItem = \<lparr>Title = [], Category = [], TvdbId = [], ImdbId = [], TmdbId = []\<rparr>"

text \<open>
  A consumer is a value of the interface \<open>pvr.PVR\<close>; the router only calls its
  \<open>Type()\<close> and its \<open>QueueFeedItem\<close>. The map \<open>pvrs\<close> of \<open>main\<close> is an
  association list from the configured name to the consumer: Go ranges over a map in an
  unspecified order, so every theorem below holds for every order of the list; the keys
  of a map are distinct.
\<close>

datatype PVR = PVR (Type: string)

text \<open>
  The state the message routine acts on. \<open>fi := new(media.FeedItem)\<close> allocates a cell
  and every consumer is handed the pointer \<open>fi\<close>, so items live in an explicit store:
  an address is an index into \<open>heap\<close>, and allocation appends a cell. \<open>logged\<close>
  holds the messages written through \<open>log.Error()\<close>. \<open>queued\<close> holds the calls of
  \<open>QueueFeedItem\<close> made so far, in order: the key of the consumer in \<open>pvrs\<close> and
  the pointer it was given.
\<close>

record rstate =
  heap :: "FeedItem list"
  logged :: "string list"
  queued :: "(string \<times> nat) list"

text \<open>The type \<open>p2p.HandleBroadcast\<close> of a subscription callback.\<close>

type_synonym HandleBroadcast = "Context \<Rightarrow> byte list \<Rightarrow> rstate \<Rightarrow> error option \<times> rstate"

section \<open>peernet: configuration, options and the node\<close>

text \<open>
  \<open>peernet.Config\<close>. \<open>ExternalPort\<close> is a Go \<open>int\<close>; the code only compares it
  with zero and stores it, so no arithmetic and no wrap-around arises and it is an
  integer here.
\<close>

record Config =
  ExternalHost :: string
  ExternalPort :: int
  IdentityKey :: string
  NetworkKey :: string
  BootstrapNode :: string
  Verbosity :: string

text \<open>
  The options of the p2p library that \<open>New\<close> passes to \<open>p2p.NewHost\<close>, one
  constructor per option function, in the library's names.
\<close>

datatype p2p_Option =
    p2p_HostName string
  | p2p_Port int
  | p2p_ExternalHostName string
  | p2p_ExternalPort int
  | p2p_DHTProtocolID int
  | p2p_MasterKey string
  | p2p_PrivateNetworkPSK string
  | p2p_Gossip
  | p2p_SecureIO

text \<open>
  The logger built by \<open>logger.New(c.Verbosity).With().Str("identity", ...).Logger()\<close>:
  its verbosity and its attached fields.
\<close>

record Logger =
  level :: string
  with_fields :: "(string \<times> string) list"

record 'h Node =
  cfg :: Config
  ctx :: Context
  log :: Logger
  host :: 'h

text \<open>
  What the program does to the world outside it on these paths, in order: the calls
  into the p2p and multiaddr libraries and the log lines of \<open>peernet\<close> and of
  \<open>main\<close>.
\<close>

datatype 'm event =
    Ev_NewHost "p2p_Option list"
  | Ev_AddBroadcastPubSub string HandleBroadcast
  | Ev_NewMultiaddr string
  | Ev_ConnectWithMultiaddr 'm
  | Ev_JoinOverlay
  | Ev_LogDebug string
  | Ev_LogInfo string
  | Ev_LogError string

text \<open>
  The libraries are not part of the repository. What their functions return is a
  parameter of the model: \<open>'h\<close> is the type of \<open>*p2p.Host\<close> and \<open>'m\<close> the type of
  \<open>multiaddr.Multiaddr\<close>.
\<close>

record ('h, 'm) p2p =
  NewHost :: "p2p_Option list \<Rightarrow> error + 'h"
  HostIdentity :: "'h \<Rightarrow> string"
  AddBroadcastPubSub :: "'h \<Rightarrow> string \<Rightarrow> error option"
  NewMultiaddr :: "string \<Rightarrow> error + 'm"
  ConnectWithMultiaddr :: "'h \<Rightarrow> 'm \<Rightarrow> error option"

subsection \<open>New\<close>

definition New :: "('h, 'm) p2p \<Rightarrow> Config \<Rightarrow> 'm event list \<Rightarrow> (error + 'h Node) \<times> 'm event list" where
  "New lib c0 tr =
     (if ExternalHost c0 = [] then (Inl (Errorf ''external_host must be provided''), tr)
      else if NetworkKey c0 = [] then (Inl (Errorf ''network_key must be provided''), tr)
      else
        let c = (if ExternalPort c0 = 0 then c0\<lparr>ExternalPort := 9157\<rparr> else c0);
            opts = [p2p_HostName ''0.0.0.0'',
                    p2p_Port (ExternalPort c),
                    p2p_ExternalHostName (ExternalHost c),
                    p2p_ExternalPort (ExternalPort c),
                    p2p_DHTProtocolID 1337,
                    p2p_MasterKey (IdentityKey c),
                    p2p_PrivateNetworkPSK (NetworkKey c),
                    p2p_Gossip,
                    p2p_SecureIO];
            tr1 = tr @ [Ev_NewHost opts]
        in case NewHost lib opts of
             Inl err \<Rightarrow> (Inl (Wrapf ''new host: '' err), tr1)
           | Inr h \<Rightarrow>
               (Inr \<lparr>cfg = c, ctx = Background,
                     log = \<lparr>level = Verbosity c, with_fields = [(''identity'', HostIdentity lib h)]\<rparr>,
                     host = h\<rparr>, tr1))"

subsection \<open>Subscribe\<close>

definition Subscribe :: "('h, 'm) p2p \<Rightarrow> 'h Node \<Rightarrow> string \<Rightarrow> HandleBroadcast \<Rightarrow> 'm event list \<Rightarrow> error option \<times> 'm event list" where
  "Subscribe lib n topic callback tr =
     (AddBroadcastPubSub lib (host n) topic, tr @ [Ev_AddBroadcastPubSub topic callback])"

subsection \<open>Bootstrap\<close>

definition Bootstrap :: "('h, 'm) p2p \<Rightarrow> 'h Node \<Rightarrow> 'm event list \<Rightarrow> error option \<times> 'm event list" where
  "Bootstrap lib n tr =
     (if BootstrapNode (cfg n) = [] then (None, tr)
      else
        let tr1 = tr @ [Ev_LogDebug ''Connecting to peer network'',
                        Ev_NewMultiaddr (BootstrapNode (cfg n))]
        in case NewMultiaddr lib (BootstrapNode (cfg n)) of
             Inl err \<Rightarrow> (Some (Wrapf ''parse bootstrap_node: '' err), tr1)
           | Inr ma \<Rightarrow>
               let tr2 = tr1 @ [Ev_ConnectWithMultiaddr ma]
               in (case ConnectWithMultiaddr lib (host n) ma of
                     Some err \<Rightarrow> (Some (Wrapf ''connect bootstrap_node: '' err), tr2)
                   | None \<Rightarrow>
                       (None, tr2 @ [Ev_JoinOverlay, Ev_LogInfo ''Connected to peer network''])))"

section \<open>main: the message handler\<close>

text \<open>
  \<open>encoding/json\<close> and the package \<open>util\<close> are not among the sources. Their
  functions are parameters: \<open>Unmarshal data\<close> is the outcome of
  \<open>json.Unmarshal(data, fi)\<close> on a freshly allocated item (an error, or the item
  \<open>fi\<close> then points to), and \<open>ContainsTvCategory\<close>, \<open>ContainsMovieCategory\<close>
  are the two predicates on the category label.
\<close>

record codec =
  Unmarshal :: "byte list \<Rightarrow> error + FeedItem"
  ContainsTvCategory :: "string \<Rightarrow> bool"
  ContainsMovieCategory :: "string \<Rightarrow> bool"

text \<open>
  \<open>p.QueueFeedItem(fi)\<close> on the consumer stored under \<open>name\<close>: the implementations
  of \<open>pvr.PVR\<close> are not among the sources, so the call itself is what is recorded,
  with the pointer it passes.
\<close>

definition QueueFeedItem :: "string \<Rightarrow> nat \<Rightarrow> rstate \<Rightarrow> rstate" where
  "QueueFeedItem name fi s = s\<lparr>queued := queued s @ [(name, fi)]\<rparr>"

text \<open>The loop \<open>for _, p := range pvrs\<close> with its \<open>switch\<close>, first matching case first.\<close>

fun send_to_pvrs :: "codec \<Rightarrow> (string \<times> PVR) list \<Rightarrow> nat \<Rightarrow> rstate \<Rightarrow> rstate" where
  "send_to_pvrs u [] fi s = s"
| "send_to_pvrs u ((name, p) # ps) fi s =
     send_to_pvrs u ps fi
       (if (TvdbId (heap s ! fi) \<noteq> [] \<or> TmdbId (heap s ! fi) \<noteq> [])
           \<and> ContainsTvCategory u (Category (heap s ! fi)) \<and> Type p = ''sonarr''
        then QueueFeedItem name fi s
        else if (ImdbId (heap s ! fi) \<noteq> [] \<or> TmdbId (heap s ! fi) \<noteq> [])
           \<and> ContainsMovieCategory u (Category (heap s ! fi)) \<and> Type p = ''radarr''
        then QueueFeedItem name fi s
        else s)"

text \<open>
  The body of the goroutine that \<open>pnHandler\<close> spawns. The pointer \<open>fi\<close> is the
  address of the new cell, \<open>length (heap s)\<close>, so every read \<open>heap _ ! fi\<close> of the
  loop is in range.
\<close>

definition routine :: "codec \<Rightarrow> (string \<times> PVR) list \<Rightarrow> Context \<Rightarrow> byte list \<Rightarrow> rstate \<Rightarrow> rstate" where
  "routine u pvrs cx data s =
     (let fi = length (heap s);
          s1 = s\<lparr>heap := heap s @ [zeroFeedItem]\<rparr>
      in case Unmarshal u data of
           Inl err \<Rightarrow> s1\<lparr>logged := logged s1 @ [''Failed decoding feed item from peernet'']\<rparr>
         | Inr item \<Rightarrow> send_to_pvrs u pvrs fi (s1\<lparr>heap := (heap s1)[fi := item]\<rparr>))"

text \<open>
  \<open>pnHandler\<close> starts the goroutine and returns \<open>nil\<close>. Scheduling is not modelled:
  the goroutine runs to its end when it is started, so the state returned is the state
  once the message has been processed.
\<close>

definition pnHandler :: "codec \<Rightarrow> (string \<times> PVR) list \<Rightarrow> HandleBroadcast" where
  "pnHandler u pvrs cx data s = (None, routine u pvrs cx data s)"

text \<open>
  The calls of \<open>QueueFeedItem\<close> made between a state and a later one, and the
  consumers they concern.
\<close>

definition new_calls :: "rstate \<Rightarrow> rstate \<Rightarrow> (string \<times> nat) list" where
  "new_calls s s' = drop (length (queued s)) (queued s')"

definition receivers :: "rstate \<Rightarrow> rstate \<Rightarrow> string set" where
  "receivers s s' = fst ` set (new_calls s s')"

text \<open>
  What those calls handed over: for each call the consumer and the item that its pointer
  leads to in the later state.
\<close>

definition handed :: "rstate \<Rightarrow> rstate \<Rightarrow> (string \<times> FeedItem) list" where
  "handed s s' = map (\<lambda>(name, a). (name, heap s' ! a)) (new_calls s s')"

section \<open>main: the run path up to the bootstrap\<close>

text \<open>
  Lines 195 to 253 of \<open>main\<close> in run mode: build the node, subscribe the handler to
  the two topics, bootstrap. \<open>None\<close> is an early \<open>return\<close> of \<open>main\<close>; \<open>Some pn\<close>
  is the node with which \<open>main\<close> goes on to the rss scheduler.
\<close>

definition run_peernet :: "('h, 'm) p2p \<Rightarrow> codec \<Rightarrow> Config \<Rightarrow> (string \<times> PVR) list \<Rightarrow> 'm event list \<Rightarrow> 'h Node option \<times> 'm event list" where
  "run_peernet lib u c pvrs tr =
     (case New lib c tr of
        (Inl err, tr0) \<Rightarrow> (None, tr0 @ [Ev_LogError ''Failed initialising peernet''])
      | (Inr pn, tr0) \<Rightarrow>
          (case Subscribe lib pn ''sonarr'' (pnHandler u pvrs) tr0 of
             (Some err, tr1) \<Rightarrow>
               (None, tr1 @ [Ev_LogError ''Failed subscribing to sonarr peernet topic''])
           | (None, tr1) \<Rightarrow>
               (case Subscribe lib pn ''radarr'' (pnHandler u pvrs) tr1 of
                  (Some err, tr2) \<Rightarrow>
                    (None, tr2 @ [Ev_LogError ''Failed subscribing to radarr peernet topic''])
                | (None, tr2) \<Rightarrow>
                    (case Bootstrap lib pn tr2 of
                       (Some err, tr3) \<Rightarrow>
                         (None, tr3 @ [Ev_LogError ''Failed bootstrapping peernet''])
                     | (None, tr3) \<Rightarrow> (Some pn, tr3)))))"

section \<open>main: shutdown\<close>

text \<open>
  Modelled from the spec: the package \<open>github.com/lefelys/state\<close>, whose
  \<open>Empty\<close>, \<open>Merge\<close>, \<open>DependsOn\<close> and \<open>Shutdown\<close> the end of \<open>main\<close> calls, is
  a library and is not among the sources. Section 4.3 of the spec gives the contract that
  is modelled here: a component is signalled to stop only once everything it depends on
  has finished stopping; components without mutual dependency stop concurrently; the call
  blocks until every component has finished or the deadline elapses; on the deadline it
  returns a timeout that names the components not yet finished, and signals already
  issued are not retracted. Errors of single components while stopping are not modelled.

  A state is a term over the library's constructors: the state of a started component
  (\<open>po.Start()\<close>, \<open>r.Start()\<close>), \<open>state.Empty()\<close>, \<open>state.Merge(...)\<close> and
  \<open>parent.DependsOn(children...)\<close>. The type \<open>'a\<close> identifies the components.
\<close>

datatype 'a State =
    Component 'a
  | Empty
  | Merge "'a State list"
  | DependsOn "'a State" "'a State list"

text \<open>The components of a state, and the pairs \<open>(c, d)\<close> where \<open>c\<close> depends on \<open>d\<close>.\<close>

fun components :: "'a State \<Rightarrow> 'a list" where
  "components (Component n) = [n]"
| "components Empty = []"
| "components (Merge ss) = concat (map components ss)"
| "components (DependsOn p cs) = concat (map components cs) @ components p"

fun depends :: "'a State \<Rightarrow> ('a \<times> 'a) list" where
  "depends (Component n) = []"
| "depends Empty = []"
| "depends (Merge ss) = concat (map depends ss)"
| "depends (DependsOn p cs) =
     concat (map depends cs) @ depends p
       @ List.product (components p) (concat (map components cs))"

text \<open>
  Time is counted in nanoseconds from the call of \<open>Shutdown\<close>; \<open>\<infinity>\<close> is never. A
  schedule gives for each component the time it is signalled to stop and the time it has
  finished stopping. How long a component takes to stop once it is signalled is not in
  the hands of the coordinator: it is the parameter \<open>stop_time\<close>, and \<open>\<infinity>\<close> is a
  component that never stops.
\<close>

type_synonym 'a schedule = "('a \<times> enat \<times> enat) list"

text \<open>The time by which all of a schedule has finished, and not before \<open>t\<close>.\<close>

fun finished_by :: "enat \<Rightarrow> 'a schedule \<Rightarrow> enat" where
  "finished_by t [] = t"
| "finished_by t ((n, sg, fn) # rest) = max fn (finished_by t rest)"

text \<open>
  Stopping a state from time \<open>t\<close> on: a component is signalled at \<open>t\<close>; the members of
  a merge are all stopped from \<open>t\<close> on, side by side; of a state with dependencies the
  dependencies are stopped from \<open>t\<close> on, and the state itself from the time on by which
  all of them have finished.
\<close>

fun stop_schedule :: "('a \<Rightarrow> enat) \<Rightarrow> 'a State \<Rightarrow> enat \<Rightarrow> 'a schedule" where
  "stop_schedule stop_time (Component n) t = [(n, t, t + stop_time n)]"
| "stop_schedule stop_time Empty t = []"
| "stop_schedule stop_time (Merge ss) t = concat (map (\<lambda>s. stop_schedule stop_time s t) ss)"
| "stop_schedule stop_time (DependsOn p cs) t =
     (let deps = concat (map (\<lambda>s. stop_schedule stop_time s t) cs)
      in deps @ stop_schedule stop_time p (finished_by t deps))"

text \<open>
  The deadline of a context, if it has one. The context is created right before the call
  of \<open>Shutdown\<close>, so its timeout counts from time 0.
\<close>

fun deadline :: "Context \<Rightarrow> int option" where
  "deadline Background = None"
| "deadline (WithTimeout parent d) =
     (case deadline parent of None \<Rightarrow> Some d | Some d' \<Rightarrow> Some (min d d'))"

text \<open>
  What a call of \<open>Shutdown\<close> comes to: it returns \<open>nil\<close> when all components have
  finished, it returns the timeout with the components still pending at the deadline, or,
  without a deadline and with a component that never stops, it does not return.
\<close>

datatype 'a outcome = Completed | TimedOut "'a list" | Blocked

record 'a shutdown_result =
  outcome :: "'a outcome"
  returned_at :: enat
  schedule :: "'a schedule"

definition Shutdown :: "('a \<Rightarrow> enat) \<Rightarrow> 'a State \<Rightarrow> Context \<Rightarrow> 'a shutdown_result" where
  "Shutdown stop_time st cx =
     (let sch = stop_schedule stop_time st 0;
          fin = finished_by 0 sch
      in case deadline cx of
           None \<Rightarrow>
             \<lparr>outcome = (if fin = \<infinity> then Blocked else Completed),
              returned_at = fin, schedule = sch\<rparr>
         | Some d \<Rightarrow>
             if fin \<le> enat (nat d)
             then \<lparr>outcome = Completed, returned_at = fin, schedule = sch\<rparr>
             else \<lparr>outcome = TimedOut (map fst (filter (\<lambda>(n, sg, fn). enat (nat d) < fn) sch)),
                   returned_at = enat (nat d), schedule = sch\<rparr>)"

text \<open>
  Lines 313 to 323 of \<open>main\<close>: the context with its timeout, the state of the
  application, the call of \<open>Shutdown\<close> and the error line when it returns an error.
  \<open>pvrStates\<close> holds the states that \<open>po.Start()\<close> returned, \<open>rssState\<close> is
  \<open>state.Empty()\<close> or what \<open>r.Start()\<close> returned.
\<close>

definition appState :: "'a State list \<Rightarrow> 'a State \<Rightarrow> 'a State" where
  "appState pvrStates rssState = DependsOn (Merge pvrStates) [rssState]"

definition main_shutdown :: "('a \<Rightarrow> enat) \<Rightarrow> 'a State list \<Rightarrow> 'a State \<Rightarrow> 'a shutdown_result \<times> string list" where
  "main_shutdown stop_time pvrStates rssState =
     (let appCtx = WithTimeout Background (60 * Second);
          r = Shutdown stop_time (appState pvrStates rssState) appCtx
      in (r, case outcome r of
               TimedOut pending \<Rightarrow> [''Failed shutting down gracefully'']
             | _ \<Rightarrow> []))"

section \<open>Observations on states and traces\<close>

text \<open>
  The guard under which the body of the loop calls \<open>QueueFeedItem\<close>: the condition
  of the first case of the \<open>switch\<close> or that of the second.
\<close>

definition queues_item :: "codec \<Rightarrow> FeedItem \<Rightarrow> PVR \<Rightarrow> bool" where
  "queues_item u it p \<longleftrightarrow>
     (TvdbId it \<noteq> [] \<or> TmdbId it \<noteq> []) \<and> ContainsTvCategory u (Category it)
        \<and> Type p = ''sonarr''
     \<or> (ImdbId it \<noteq> [] \<or> TmdbId it \<noteq> []) \<and> ContainsMovieCategory u (Category it)
        \<and> Type p = ''radarr''"

text \<open>Every pointer that was handed to a consumer is an allocated cell.\<close>

definition wf_rstate :: "rstate \<Rightarrow> bool" where
  "wf_rstate s \<longleftrightarrow> list_all (\<lambda>(name, a). a < length (heap s)) (queued s)"

text \<open>What the consumers were handed, by content: the item behind each pointer.\<close>

definition delivered :: "rstate \<Rightarrow> (string \<times> FeedItem) list" where
  "delivered s = map (\<lambda>(name, a). (name, heap s ! a)) (queued s)"

text \<open>
  What one payload adds to \<open>delivered\<close>: nothing when it does not decode, and otherwise
  the decoded item once for each consumer that the guard selects.
\<close>

abbreviation routed :: "codec \<Rightarrow> (string \<times> PVR) list \<Rightarrow> byte list \<Rightarrow> (string \<times> FeedItem) list" where
  "routed u pvrs data \<equiv>
     (case Unmarshal u data of
        Inl err \<Rightarrow> []
      | Inr item \<Rightarrow> map (\<lambda>(name, p). (name, item)) (filter (\<lambda>(name, p). queues_item u item p) pvrs))"

text \<open>
  The p2p library calls a subscription's callback once for each inbound message; this
  runs a callback on a sequence of payloads, one after the other, and collects what the
  callback returned to the library.
\<close>

fun deliver_all :: "HandleBroadcast \<Rightarrow> Context \<Rightarrow> byte list list \<Rightarrow> rstate \<Rightarrow> error option list \<times> rstate" where
  "deliver_all h cx [] s = ([], s)"
| "deliver_all h cx (data # rest) s =
     (case h cx data s of (r, s1) \<Rightarrow>
        (case deliver_all h cx rest s1 of (rs, s2) \<Rightarrow> (r # rs, s2)))"

text \<open>The options of every call of \<open>p2p.NewHost\<close> in a trace.\<close>

fun NewHost_options :: "'m event list \<Rightarrow> p2p_Option list" where
  "NewHost_options [] = []"
| "NewHost_options (Ev_NewHost opts # es) = opts @ NewHost_options es"
| "NewHost_options (_ # es) = NewHost_options es"

text \<open>The topics subscribed to in a trace, in order, and the callbacks registered for a topic.\<close>

fun subscribed_topics :: "'m event list \<Rightarrow> string list" where
  "subscribed_topics [] = []"
| "subscribed_topics (Ev_AddBroadcastPubSub topic h # es) = topic # subscribed_topics es"
| "subscribed_topics (_ # es) = subscribed_topics es"

fun callbacks_for :: "string \<Rightarrow> 'm event list \<Rightarrow> HandleBroadcast list" where
  "callbacks_for t [] = []"
| "callbacks_for t (Ev_AddBroadcastPubSub topic h # es) =
     (if topic = t then h # callbacks_for t es else callbacks_for t es)"
| "callbacks_for t (_ # es) = callbacks_for t es"

text \<open>
  The events by which \<open>Bootstrap\<close> reaches for the bootstrap peer: the parse of its
  address, the connection, the join of the overlay.
\<close>

fun bootstrap_event :: "'m event \<Rightarrow> bool" where
  "bootstrap_event (Ev_NewMultiaddr a) = True"
| "bootstrap_event (Ev_ConnectWithMultiaddr ma) = True"
| "bootstrap_event Ev_JoinOverlay = True"
| "bootstrap_event _ = False"

section \<open>Concrete inputs\<close>

text \<open>
  A library whose host is the list of options it was built from, whose address parser
  wants a leading slash, and which reaches one peer only.
\<close>

definition lib_example :: "(p2p_Option list, string) p2p" where
  "lib_example =
     \<lparr>NewHost = (\<lambda>opts. Inr opts),
      HostIdentity = (\<lambda>h. ''12D3KooW''),
      AddBroadcastPubSub = (\<lambda>h topic. None),
      NewMultiaddr = (\<lambda>a. case a of [] \<Rightarrow> Inl (Errorf ''empty multiaddr'')
                          | x # _ \<Rightarrow> if x = CHR ''/'' then Inr a
                                     else Inl (Errorf ''must begin with /'')),
      ConnectWithMultiaddr = (\<lambda>h ma. if ma = ''/ip4/10.0.0.1/tcp/9157'' then None
                                     else Some (Errorf ''dial failed''))\<rparr>"

definition cfg_example :: Config where
  "cfg_example =
     \<lparr>ExternalHost = ''node.example.org'', ExternalPort = 0, IdentityKey = ''id-key'',
      NetworkKey = ''psk'', BootstrapNode = ''/ip4/10.0.0.1/tcp/9157'', Verbosity = ''debug''\<rparr>"

definition node_example :: "p2p_Option list Node" where
  "node_example = \<lparr>cfg = cfg_example, ctx = Background,
                   log = \<lparr>level = ''debug'', with_fields = [(''identity'', ''12D3KooW'')]\<rparr>,
                   host = []\<rparr>"

text \<open>
  The two items of the spec's routing example, an item without identifiers, and a decoder
  that knows three payloads.
\<close>

definition item_tv :: FeedItem where
  "item_tv = \<lparr>Title = ''Show.S01E01'', Category = ''tv'', TvdbId = ''121361'', ImdbId = [], TmdbId = []\<rparr>"

definition item_movie :: FeedItem where
  "item_movie = \<lparr>Title = ''Film.1994'', Category = ''movie'', TvdbId = [], ImdbId = ''tt0110912'', TmdbId = []\<rparr>"

definition item_noid :: FeedItem where
  "item_noid = \<lparr>Title = ''Show.S01E02'', Category = ''tv'', TvdbId = [], ImdbId = [], TmdbId = []\<rparr>"

definition codec_example :: codec where
  "codec_example =
     \<lparr>Unmarshal = (\<lambda>d. if d = [1] then Inr item_tv
                        else if d = [2] then Inr item_movie
                        else if d = [3] then Inr item_noid
                        else Inl (Errorf ''unexpected end of JSON input'')),
      ContainsTvCategory = (\<lambda>c. c = ''tv''),
      ContainsMovieCategory = (\<lambda>c. c = ''movie'')\<rparr>"

definition pvrs_example :: "(string \<times> PVR) list" where
  "pvrs_example = [(''sonarr'', PVR ''sonarr''), (''sonarr4k'', PVR ''sonarr''), (''radarr'', PVR ''radarr'')]"

definition rstate_empty :: rstate where
  "rstate_empty = \<lparr>heap = [], logged = [], queued = []\<rparr>"

text \<open>
  Two consumers' processors and the rss scheduler, and how long each takes to stop: the
  scheduler two seconds, \<open>sonarr\<close> one second, and \<open>radarr\<close> never stops.
\<close>

definition pvrStates_example :: "string State list" where
  "pvrStates_example = [Component ''sonarr'', Component ''radarr'']"

definition rssState_example :: "string State" where
  "rssState_example = Component ''rss''"

definition stop_time_example :: "string \<Rightarrow> enat" where
  "stop_time_example n =
     (if n = ''rss'' then 2000000000 else if n = ''sonarr'' then 1000000000 else \<infinity>)"

section \<open>peernet.New: validation\<close>

text \<open>
  C3. \<open>New\<close> returns the error of the missing field, and calls nothing, when
  \<open>external_host\<close> is empty or when \<open>network_key\<close> is empty. When both are given it
  reaches \<open>p2p.NewHost\<close>: it calls it once, it fails exactly when that call fails (with
  the library's error wrapped), and otherwise it returns a node on the host the call made.
\<close>

theorem New_validates_config:
  "(ExternalHost c = [] \<longrightarrow>
      New lib c tr = (Inl (Errorf ''external_host must be provided''), tr)) \<and>
   (ExternalHost c \<noteq> [] \<and> NetworkKey c = [] \<longrightarrow>
      New lib c tr = (Inl (Errorf ''network_key must be provided''), tr)) \<and>
   (ExternalHost c \<noteq> [] \<and> NetworkKey c \<noteq> [] \<longrightarrow>
      (\<exists>opts. snd (New lib c tr) = tr @ [Ev_NewHost opts] \<and>
         (case NewHost lib opts of
            Inl err \<Rightarrow> fst (New lib c tr) = Inl (Wrapf ''new host: '' err)
          | Inr h \<Rightarrow> (\<exists>n. fst (New lib c tr) = Inr n \<and> host n = h))))"
  by (simp add: New_def Let_def split: sum.splits)

theorem New_validates_config_witness:
  "New lib_example (cfg_example\<lparr>ExternalHost := []\<rparr>) [] =
      (Inl (Errorf ''external_host must be provided''), []) \<and>
   New lib_example (cfg_example\<lparr>NetworkKey := []\<rparr>) [] =
      (Inl (Errorf ''network_key must be provided''), []) \<and>
   (\<exists>n. fst (New lib_example cfg_example []) = Inr n)"
  using New_validates_config [of "cfg_example\<lparr>ExternalHost := []\<rparr>" lib_example "[]"]
        New_validates_config [of "cfg_example\<lparr>NetworkKey := []\<rparr>" lib_example "[]"]
        New_validates_config [of cfg_example lib_example "[]"]
  by (auto simp add: cfg_example_def lib_example_def split: sum.splits)

section \<open>peernet.New: the port\<close>

text \<open>
  C6. For every configuration that passes validation, \<open>New\<close> calls \<open>p2p.NewHost\<close>
  once, and the only local port option and the only external port option of that call
  carry the same number: 9157 when \<open>external_port\<close> is 0, the configured port
  otherwise. The node that is returned stores that number as its port.
\<close>

theorem New_port_default:
  assumes "ExternalHost c \<noteq> []" and "NetworkKey c \<noteq> []"
  shows "\<exists>opts. snd (New lib c tr) = tr @ [Ev_NewHost opts] \<and>
           (\<forall>p. p2p_Port p \<in> set opts \<longleftrightarrow>
                  p = (if ExternalPort c = 0 then 9157 else ExternalPort c)) \<and>
           (\<forall>p. p2p_ExternalPort p \<in> set opts \<longleftrightarrow>
                  p = (if ExternalPort c = 0 then 9157 else ExternalPort c)) \<and>
           (\<forall>n. fst (New lib c tr) = Inr n \<longrightarrow>
                  ExternalPort (cfg n) = (if ExternalPort c = 0 then 9157 else ExternalPort c))"
  using assms by (auto simp add: New_def Let_def split: sum.splits)

theorem New_port_default_witness:
  "ExternalHost cfg_example \<noteq> [] \<and> NetworkKey cfg_example \<noteq> [] \<and>
   ExternalPort cfg_example = 0 \<and>
   p2p_Port 9157 \<in> set (NewHost_options (snd (New lib_example cfg_example []))) \<and>
   p2p_ExternalPort 9157 \<in> set (NewHost_options (snd (New lib_example cfg_example []))) \<and>
   p2p_Port 8080 \<in> set (NewHost_options (snd (New lib_example (cfg_example\<lparr>ExternalPort := 8080\<rparr>) []))) \<and>
   p2p_ExternalPort 8080 \<in> set (NewHost_options (snd (New lib_example (cfg_example\<lparr>ExternalPort := 8080\<rparr>) [])))"
proof -
  let ?c = "cfg_example\<lparr>ExternalPort := 8080\<rparr>"
  have v: "ExternalHost cfg_example \<noteq> []" "NetworkKey cfg_example \<noteq> []"
    and z: "ExternalPort cfg_example = 0"
    by (simp_all add: cfg_example_def)
  have v': "ExternalHost ?c \<noteq> []" "NetworkKey ?c \<noteq> []"
    and z': "ExternalPort ?c = 8080"
    by (simp_all add: cfg_example_def)
  from New_port_default [OF v, of lib_example "[]"] obtain opts where
    tr: "snd (New lib_example cfg_example []) = [] @ [Ev_NewHost opts]"
    and p: "p2p_Port 9157 \<in> set opts" "p2p_ExternalPort 9157 \<in> set opts"
    unfolding z by auto
  from New_port_default [OF v', of lib_example "[]"] obtain opts' where
    tr': "snd (New lib_example ?c []) = [] @ [Ev_NewHost opts']"
    and p': "p2p_Port 8080 \<in> set opts'" "p2p_ExternalPort 8080 \<in> set opts'"
    unfolding z' by auto
  show ?thesis
    unfolding tr tr' using v z p p' by simp
qed

section \<open>peernet.New: the transport options\<close>

text \<open>
  C9, as stated: the listener is bound to the configured
  \<open>external_host\<close>. It is not: for the host \<open>node.example.org\<close> the call of
  \<open>p2p.NewHost\<close> has no listen-host option of that name; its listen host is
  \<open>0.0.0.0\<close>.
\<close>

theorem New_listener_host_counterexample:
  "ExternalHost cfg_example \<noteq> [] \<and> NetworkKey cfg_example \<noteq> [] \<and>
   \<not> isl (fst (New lib_example cfg_example [])) \<and>
   p2p_HostName (ExternalHost cfg_example) \<notin> set (NewHost_options (snd (New lib_example cfg_example []))) \<and>
   p2p_HostName ''0.0.0.0'' \<in> set (NewHost_options (snd (New lib_example cfg_example [])))"
  by (simp add: New_def Let_def cfg_example_def lib_example_def)

text \<open>
  C9, amended. For every valid configuration \<open>New\<close> calls \<open>p2p.NewHost\<close> once with
  secure IO and with \<open>network_key\<close> as the only pre-shared key; the only listen host
  of the call is \<open>0.0.0.0\<close>, and the configured \<open>external_host\<close> is its only
  external host name.
\<close>

theorem New_transport_options:
  assumes "ExternalHost c \<noteq> []" and "NetworkKey c \<noteq> []"
  shows "\<exists>opts. snd (New lib c tr) = tr @ [Ev_NewHost opts] \<and>
           (\<forall>h. p2p_HostName h \<in> set opts \<longleftrightarrow> h = ''0.0.0.0'') \<and>
           (\<forall>h. p2p_ExternalHostName h \<in> set opts \<longleftrightarrow> h = ExternalHost c) \<and>
           (\<forall>k. p2p_PrivateNetworkPSK k \<in> set opts \<longleftrightarrow> k = NetworkKey c) \<and>
           p2p_SecureIO \<in> set opts"
  using assms by (auto simp add: New_def Let_def split: sum.splits)

theorem New_transport_options_witness:
  "ExternalHost cfg_example \<noteq> [] \<and> NetworkKey cfg_example \<noteq> [] \<and>
   p2p_HostName ''0.0.0.0'' \<in> set (NewHost_options (snd (New lib_example cfg_example []))) \<and>
   p2p_ExternalHostName (ExternalHost cfg_example) \<in> set (NewHost_options (snd (New lib_example cfg_example []))) \<and>
   p2p_PrivateNetworkPSK (NetworkKey cfg_example) \<in> set (NewHost_options (snd (New lib_example cfg_example []))) \<and>
   p2p_SecureIO \<in> set (NewHost_options (snd (New lib_example cfg_example [])))"
proof -
  have v: "ExternalHost cfg_example \<noteq> []" "NetworkKey cfg_example \<noteq> []"
    by (simp_all add: cfg_example_def)
  from New_transport_options [OF v, of lib_example "[]"] obtain opts where
    tr: "snd (New lib_example cfg_example []) = [] @ [Ev_NewHost opts]"
    and p: "p2p_HostName ''0.0.0.0'' \<in> set opts"
           "p2p_ExternalHostName (ExternalHost cfg_example) \<in> set opts"
           "p2p_PrivateNetworkPSK (NetworkKey cfg_example) \<in> set opts"
           "p2p_SecureIO \<in> set opts"
    by blast
  show ?thesis
    unfolding tr using v p by simp
qed

section \<open>peernet.Bootstrap\<close>

text \<open>
  C7. With an empty bootstrap address \<open>Bootstrap\<close> returns \<open>nil\<close> and the trace is
  what it was: no address was parsed, no connection opened, no overlay joined, nothing
  logged. With a non-empty address, a failure of the parse is returned wrapped as
  \<open>parse bootstrap_node\<close>, and a failure of the connection is returned wrapped as
  \<open>connect bootstrap_node\<close>.
\<close>

theorem Bootstrap_empty_or_error:
  "(BootstrapNode (cfg n) = [] \<longrightarrow> Bootstrap lib n tr = (None, tr)) \<and>
   (BootstrapNode (cfg n) \<noteq> [] \<longrightarrow>
      (\<forall>err. NewMultiaddr lib (BootstrapNode (cfg n)) = Inl err \<longrightarrow>
             fst (Bootstrap lib n tr) = Some (Wrapf ''parse bootstrap_node: '' err)) \<and>
      (\<forall>ma err. NewMultiaddr lib (BootstrapNode (cfg n)) = Inr ma \<and>
                ConnectWithMultiaddr lib (host n) ma = Some err \<longrightarrow>
             fst (Bootstrap lib n tr) = Some (Wrapf ''connect bootstrap_node: '' err)))"
  by (simp add: Bootstrap_def Let_def)

theorem Bootstrap_empty_or_error_witness:
  "Bootstrap lib_example (node_example\<lparr>cfg := cfg_example\<lparr>BootstrapNode := []\<rparr>\<rparr>) [] = (None, []) \<and>
   fst (Bootstrap lib_example (node_example\<lparr>cfg := cfg_example\<lparr>BootstrapNode := ''10.0.0.1:9157''\<rparr>\<rparr>) [])
     = Some (Wrapf ''parse bootstrap_node: '' (Errorf ''must begin with /'')) \<and>
   fst (Bootstrap lib_example (node_example\<lparr>cfg := cfg_example\<lparr>BootstrapNode := ''/ip4/10.0.0.2/tcp/9157''\<rparr>\<rparr>) [])
     = Some (Wrapf ''connect bootstrap_node: '' (Errorf ''dial failed''))"
  using Bootstrap_empty_or_error [of "node_example\<lparr>cfg := cfg_example\<lparr>BootstrapNode := []\<rparr>\<rparr>" lib_example "[]"]
        Bootstrap_empty_or_error [of "node_example\<lparr>cfg := cfg_example\<lparr>BootstrapNode := ''10.0.0.1:9157''\<rparr>\<rparr>" lib_example "[]"]
        Bootstrap_empty_or_error [of "node_example\<lparr>cfg := cfg_example\<lparr>BootstrapNode := ''/ip4/10.0.0.2/tcp/9157''\<rparr>\<rparr>" lib_example "[]"]
  by (simp add: node_example_def cfg_example_def lib_example_def)

section \<open>The message routine in closed form\<close>

lemma send_to_pvrs_eq:
  "send_to_pvrs u ps fi s =
     s\<lparr>queued := queued s @ map (\<lambda>(name, p). (name, fi))
                              (filter (\<lambda>(name, p). queues_item u (heap s ! fi) p) ps)\<rparr>"
proof (induction ps arbitrary: s)
  case Nil
  show ?case by simp
next
  case (Cons np ps)
  obtain name p where np: "np = (name, p)" by (cases np)
  show ?case
    unfolding np by (simp add: Cons.IH QueueFeedItem_def queues_item_def)
qed

lemma routine_Inl:
  "Unmarshal u data = Inl err \<Longrightarrow>
   routine u pvrs cx data s =
     s\<lparr>heap := heap s @ [zeroFeedItem],
       logged := logged s @ [''Failed decoding feed item from peernet'']\<rparr>"
  by (simp add: routine_def Let_def)

lemma routine_Inr:
  "Unmarshal u data = Inr item \<Longrightarrow>
   routine u pvrs cx data s =
     s\<lparr>heap := heap s @ [item],
       queued := queued s @ map (\<lambda>(name, p). (name, length (heap s)))
                              (filter (\<lambda>(name, p). queues_item u item p) pvrs)\<rparr>"
  by (simp add: routine_def Let_def send_to_pvrs_eq)

lemma new_calls_routine:
  "new_calls s (routine u pvrs cx data s) =
     (case Unmarshal u data of
        Inl err \<Rightarrow> []
      | Inr item \<Rightarrow> map (\<lambda>(name, p). (name, length (heap s)))
                       (filter (\<lambda>(name, p). queues_item u item p) pvrs))"
  by (simp add: new_calls_def routine_Inl routine_Inr split: sum.splits)

lemma receivers_routine:
  "Unmarshal u data = Inr item \<Longrightarrow>
   receivers s (routine u pvrs cx data s) =
     {name. \<exists>p. (name, p) \<in> set pvrs \<and> queues_item u item p}"
  by (force simp add: receivers_def new_calls_routine image_iff)

lemma handed_routine:
  assumes "Unmarshal u data = Inr item"
  shows "handed s (routine u pvrs cx data s) =
           map (\<lambda>(name, p). (name, item)) (filter (\<lambda>(name, p). queues_item u item p) pvrs)"
proof -
  have h: "heap (routine u pvrs cx data s) = heap s @ [item]"
    by (simp add: routine_Inr [OF assms])
  show ?thesis
    unfolding handed_def h new_calls_routine
    by (simp add: assms case_prod_unfold comp_def)
qed

section \<open>Routing: who receives an item\<close>

text \<open>
  C1. When a payload decodes to an item, a consumer of the set (its keys distinct, as
  those of a map are) whose \<open>Type()\<close> is \<open>sonarr\<close> is handed the decoded item if
  and only if the tvdb or the tmdb identifier is non-empty and the category is a TV
  category; one whose \<open>Type()\<close> is \<open>radarr\<close> if and only if the imdb or the tmdb
  identifier is non-empty and the category is a movie category. A consumer is called
  exactly when it is handed the decoded item, every pointer handed over leads to the
  decoded item, and an item whose three identifiers are all empty is handed to no
  consumer: no call is made.
\<close>

theorem routing_rule:
  assumes dec: "Unmarshal u data = Inr item"
    and keys: "distinct (map fst pvrs)"
    and mem: "(name, p) \<in> set pvrs"
  shows "(Type p = ''sonarr'' \<longrightarrow>
            ((name, item) \<in> set (handed s (snd (pnHandler u pvrs cx data s))) \<longleftrightarrow>
               (TvdbId item \<noteq> [] \<or> TmdbId item \<noteq> []) \<and> ContainsTvCategory u (Category item))) \<and>
         (Type p = ''radarr'' \<longrightarrow>
            ((name, item) \<in> set (handed s (snd (pnHandler u pvrs cx data s))) \<longleftrightarrow>
               (ImdbId item \<noteq> [] \<or> TmdbId item \<noteq> []) \<and> ContainsMovieCategory u (Category item))) \<and>
         (name \<in> receivers s (snd (pnHandler u pvrs cx data s)) \<longleftrightarrow>
            (name, item) \<in> set (handed s (snd (pnHandler u pvrs cx data s)))) \<and>
         (\<forall>(n, it) \<in> set (handed s (snd (pnHandler u pvrs cx data s))). it = item) \<and>
         (TvdbId item = [] \<and> ImdbId item = [] \<and> TmdbId item = [] \<longrightarrow>
            handed s (snd (pnHandler u pvrs cx data s)) = [] \<and>
            receivers s (snd (pnHandler u pvrs cx data s)) = {})"
proof -
  let ?s' = "snd (pnHandler u pvrs cx data s)"
  let ?R = "receivers s ?s'"
  let ?F = "filter (\<lambda>(name, p). queues_item u item p) pvrs"
  have R: "?R = {name. \<exists>p. (name, p) \<in> set pvrs \<and> queues_item u item p}"
    by (simp add: pnHandler_def receivers_routine [OF dec])
  have H: "handed s ?s' = map (\<lambda>(name, p). (name, item)) ?F"
    by (simp add: pnHandler_def handed_routine [OF dec])
  have Hset: "(n, it) \<in> set (handed s ?s') \<longleftrightarrow>
                it = item \<and> (\<exists>q. (n, q) \<in> set pvrs \<and> queues_item u item q)" for n it
    unfolding H by (auto simp add: image_iff)
  have only: "q = p" if "(name, q) \<in> set pvrs" for q
    using eq_key_imp_eq_value [OF keys that mem] .
  have got: "(name, item) \<in> set (handed s ?s') \<longleftrightarrow> queues_item u item p"
  proof
    assume "(name, item) \<in> set (handed s ?s')"
    then obtain q where q: "(name, q) \<in> set pvrs" "queues_item u item q"
      unfolding Hset by blast
    from only [OF q(1)] q(2) show "queues_item u item p" by simp
  next
    assume "queues_item u item p"
    with mem show "(name, item) \<in> set (handed s ?s')" unfolding Hset by blast
  qed
  have recv: "name \<in> ?R \<longleftrightarrow> (name, item) \<in> set (handed s ?s')"
    unfolding R Hset by simp
  have same: "\<forall>(n, it) \<in> set (handed s ?s'). it = item"
    using Hset by blast
  have tv: "Type p = ''sonarr'' \<Longrightarrow> queues_item u item p \<longleftrightarrow>
      (TvdbId item \<noteq> [] \<or> TmdbId item \<noteq> []) \<and> ContainsTvCategory u (Category item)"
    by (simp add: queues_item_def)
  have mv: "Type p = ''radarr'' \<Longrightarrow> queues_item u item p \<longleftrightarrow>
      (ImdbId item \<noteq> [] \<or> TmdbId item \<noteq> []) \<and> ContainsMovieCategory u (Category item)"
    by (simp add: queues_item_def)
  have none: "handed s ?s' = [] \<and> ?R = {}"
    if "TvdbId item = [] \<and> ImdbId item = [] \<and> TmdbId item = []"
  proof -
    have nq: "\<not> queues_item u item q" for q
      using that by (simp add: queues_item_def)
    have F: "?F = []"
      unfolding filter_empty_conv using nq by blast
    show ?thesis
      unfolding R H F using nq by simp
  qed
  from tv mv got have a: "Type p = ''sonarr'' \<longrightarrow>
            ((name, item) \<in> set (handed s ?s') \<longleftrightarrow>
               (TvdbId item \<noteq> [] \<or> TmdbId item \<noteq> []) \<and> ContainsTvCategory u (Category item))"
    and b: "Type p = ''radarr'' \<longrightarrow>
            ((name, item) \<in> set (handed s ?s') \<longleftrightarrow>
               (ImdbId item \<noteq> [] \<or> TmdbId item \<noteq> []) \<and> ContainsMovieCategory u (Category item))"
    by blast+
  from a b recv same none show ?thesis by blast
qed

theorem routing_rule_witness:
  "Unmarshal codec_example [1] = Inr item_tv \<and> distinct (map fst pvrs_example) \<and>
   (''sonarr'', PVR ''sonarr'') \<in> set pvrs_example \<and>
   (''radarr'', PVR ''radarr'') \<in> set pvrs_example \<and>
   (''sonarr'', item_tv) \<in> set (handed rstate_empty (snd (pnHandler codec_example pvrs_example Background [1] rstate_empty))) \<and>
   (''radarr'', item_tv) \<notin> set (handed rstate_empty (snd (pnHandler codec_example pvrs_example Background [1] rstate_empty))) \<and>
   ''sonarr'' \<in> receivers rstate_empty (snd (pnHandler codec_example pvrs_example Background [1] rstate_empty)) \<and>
   ''radarr'' \<notin> receivers rstate_empty (snd (pnHandler codec_example pvrs_example Background [1] rstate_empty)) \<and>
   (''radarr'', item_movie) \<in> set (handed rstate_empty (snd (pnHandler codec_example pvrs_example Background [2] rstate_empty))) \<and>
   (''sonarr'', item_movie) \<notin> set (handed rstate_empty (snd (pnHandler codec_example pvrs_example Background [2] rstate_empty))) \<and>
   handed rstate_empty (snd (pnHandler codec_example pvrs_example Background [3] rstate_empty)) = [] \<and>
   receivers rstate_empty (snd (pnHandler codec_example pvrs_example Background [3] rstate_empty)) = {}"
proof -
  have d: "Unmarshal codec_example [1] = Inr item_tv"
          "Unmarshal codec_example [2] = Inr item_movie"
          "Unmarshal codec_example [3] = Inr item_noid"
    by (simp_all add: codec_example_def)
  have k: "distinct (map fst pvrs_example)"
    by (simp add: pvrs_example_def)
  have m: "(''sonarr'', PVR ''sonarr'') \<in> set pvrs_example"
          "(''radarr'', PVR ''radarr'') \<in> set pvrs_example"
    by (simp_all add: pvrs_example_def)
  have f: "TvdbId item_tv \<noteq> []" "ContainsTvCategory codec_example (Category item_tv)"
          "ImdbId item_tv = []" "TmdbId item_tv = []"
          "ImdbId item_movie \<noteq> []" "ContainsMovieCategory codec_example (Category item_movie)"
          "TvdbId item_movie = []" "TmdbId item_movie = []"
          "TvdbId item_noid = []" "ImdbId item_noid = []" "TmdbId item_noid = []"
    by (simp_all add: item_tv_def item_movie_def item_noid_def codec_example_def)
  have t: "Type (PVR ''sonarr'') = ''sonarr''" "Type (PVR ''radarr'') = ''radarr''"
    by simp_all
  from routing_rule [OF d(1) k m(1), of rstate_empty Background] t f
  have a: "(''sonarr'', item_tv) \<in> set (handed rstate_empty (snd (pnHandler codec_example pvrs_example Background [1] rstate_empty)))"
    and a': "''sonarr'' \<in> receivers rstate_empty (snd (pnHandler codec_example pvrs_example Background [1] rstate_empty))"
    by blast+
  from routing_rule [OF d(1) k m(2), of rstate_empty Background] t f
  have b: "(''radarr'', item_tv) \<notin> set (handed rstate_empty (snd (pnHandler codec_example pvrs_example Background [1] rstate_empty)))"
    and b': "''radarr'' \<notin> receivers rstate_empty (snd (pnHandler codec_example pvrs_example Background [1] rstate_empty))"
    by blast+
  from routing_rule [OF d(2) k m(2), of rstate_empty Background] t f
  have c: "(''radarr'', item_movie) \<in> set (handed rstate_empty (snd (pnHandler codec_example pvrs_example Background [2] rstate_empty)))"
    by blast
  from routing_rule [OF d(2) k m(1), of rstate_empty Background] t f
  have e: "(''sonarr'', item_movie) \<notin> set (handed rstate_empty (snd (pnHandler codec_example pvrs_example Background [2] rstate_empty)))"
    by blast
  from routing_rule [OF d(3) k m(1), of rstate_empty Background] f
  have g: "handed rstate_empty (snd (pnHandler codec_example pvrs_example Background [3] rstate_empty)) = []"
          "receivers rstate_empty (snd (pnHandler codec_example pvrs_example Background [3] rstate_empty)) = {}"
    by blast+
  from d(1) k m a a' b b' c e g show ?thesis by blast
qed

section \<open>Routing: fan-out\<close>

text \<open>
  C5, as stated: each matching consumer receives an independent copy. With
  two consumers of type \<open>sonarr\<close> and the TV item of the spec's example, both are
  called, and both with the pointer 0: the pointers handed out are not distinct, the two
  consumers hold the same cell.
\<close>

theorem fan_out_shares_pointer_counterexample:
  "new_calls rstate_empty (snd (pnHandler codec_example pvrs_example Background [1] rstate_empty))
     = [(''sonarr'', 0), (''sonarr4k'', 0)] \<and>
   \<not> distinct (map snd (new_calls rstate_empty
                   (snd (pnHandler codec_example pvrs_example Background [1] rstate_empty))))"
  by (simp add: pnHandler_def routine_def Let_def new_calls_def rstate_empty_def
      codec_example_def pvrs_example_def item_tv_def QueueFeedItem_def)

text \<open>
  C5, amended. When a payload decodes to an item, every consumer of the set that the
  rule selects is called (all of them, each entry of the set once and in the order of
  the iteration, and no other consumer), and every call passes the one pointer
  \<open>fi\<close> to the one cell that was allocated for the message, which holds the decoded
  item.
\<close>

theorem fan_out_all_matching:
  assumes dec: "Unmarshal u data = Inr item"
  shows "(\<forall>(name, p) \<in> set pvrs.
            Type p = ''sonarr'' \<and> (TvdbId item \<noteq> [] \<or> TmdbId item \<noteq> [])
              \<and> ContainsTvCategory u (Category item) \<longrightarrow>
            (name, length (heap s)) \<in> set (new_calls s (snd (pnHandler u pvrs cx data s)))) \<and>
         (\<forall>(name, p) \<in> set pvrs.
            Type p = ''radarr'' \<and> (ImdbId item \<noteq> [] \<or> TmdbId item \<noteq> [])
              \<and> ContainsMovieCategory u (Category item) \<longrightarrow>
            (name, length (heap s)) \<in> set (new_calls s (snd (pnHandler u pvrs cx data s)))) \<and>
         map fst (new_calls s (snd (pnHandler u pvrs cx data s)))
            = map fst (filter (\<lambda>(name, p). queues_item u item p) pvrs) \<and>
         (\<forall>(name, a) \<in> set (new_calls s (snd (pnHandler u pvrs cx data s))). a = length (heap s)) \<and>
         heap (snd (pnHandler u pvrs cx data s)) = heap s @ [item]"
proof -
  let ?s' = "snd (pnHandler u pvrs cx data s)"
  let ?F = "filter (\<lambda>(name, p). queues_item u item p) pvrs"
  have nc: "new_calls s ?s' = map (\<lambda>(name, p). (name, length (heap s))) ?F"
    by (simp add: pnHandler_def new_calls_routine dec)
  have mem: "(name, length (heap s)) \<in> set (new_calls s ?s')"
    if "(name, p) \<in> set pvrs" "queues_item u item p" for name p
  proof -
    from that have "(name, p) \<in> set ?F" by simp
    then have "(\<lambda>(name, p). (name, length (heap s))) (name, p) \<in> set (new_calls s ?s')"
      unfolding nc set_map by (rule imageI)
    then show ?thesis by simp
  qed
  have c1: "\<forall>(name, p) \<in> set pvrs.
            Type p = ''sonarr'' \<and> (TvdbId item \<noteq> [] \<or> TmdbId item \<noteq> [])
              \<and> ContainsTvCategory u (Category item) \<longrightarrow>
            (name, length (heap s)) \<in> set (new_calls s ?s')"
    using mem by (auto simp add: queues_item_def)
  have c2: "\<forall>(name, p) \<in> set pvrs.
            Type p = ''radarr'' \<and> (ImdbId item \<noteq> [] \<or> TmdbId item \<noteq> [])
              \<and> ContainsMovieCategory u (Category item) \<longrightarrow>
            (name, length (heap s)) \<in> set (new_calls s ?s')"
    using mem by (auto simp add: queues_item_def)
  have c3: "map fst (new_calls s ?s') = map fst ?F"
    unfolding nc by (simp add: case_prod_unfold comp_def)
  have c4: "\<forall>(name, a) \<in> set (new_calls s ?s'). a = length (heap s)"
    unfolding nc by auto
  have c5: "heap ?s' = heap s @ [item]"
    by (simp add: pnHandler_def routine_Inr [OF dec])
  from c1 c2 c3 c4 c5 show ?thesis by blast
qed

theorem fan_out_all_matching_witness:
  "Unmarshal codec_example [1] = Inr item_tv \<and>
   (''sonarr'', 0) \<in> set (new_calls rstate_empty (snd (pnHandler codec_example pvrs_example Background [1] rstate_empty))) \<and>
   (''sonarr4k'', 0) \<in> set (new_calls rstate_empty (snd (pnHandler codec_example pvrs_example Background [1] rstate_empty))) \<and>
   heap (snd (pnHandler codec_example pvrs_example Background [1] rstate_empty)) = [item_tv] \<and>
   Unmarshal codec_example [2] = Inr item_movie \<and>
   (''radarr'', 0) \<in> set (new_calls rstate_empty (snd (pnHandler codec_example pvrs_example Background [2] rstate_empty)))"
proof -
  have d1: "Unmarshal codec_example [1] = Inr item_tv"
    and d2: "Unmarshal codec_example [2] = Inr item_movie"
    by (simp_all add: codec_example_def)
  note t1 = fan_out_all_matching [OF d1, of pvrs_example rstate_empty Background]
  note t2 = fan_out_all_matching [OF d2, of pvrs_example rstate_empty Background]
  have tv: "TvdbId item_tv \<noteq> []" "ContainsTvCategory codec_example (Category item_tv)"
    by (simp_all add: item_tv_def codec_example_def)
  have mv: "ImdbId item_movie \<noteq> []" "ContainsMovieCategory codec_example (Category item_movie)"
    by (simp_all add: item_movie_def codec_example_def)
  have m: "(''sonarr'', PVR ''sonarr'') \<in> set pvrs_example"
          "(''sonarr4k'', PVR ''sonarr'') \<in> set pvrs_example"
          "(''radarr'', PVR ''radarr'') \<in> set pvrs_example"
    by (simp_all add: pvrs_example_def)
  have h0: "length (heap rstate_empty) = 0" "heap rstate_empty = []"
    by (simp_all add: rstate_empty_def)
  from t1 m(1) tv have a: "(''sonarr'', 0) \<in> set (new_calls rstate_empty (snd (pnHandler codec_example pvrs_example Background [1] rstate_empty)))"
    unfolding h0 by fastforce
  from t1 m(2) tv have b: "(''sonarr4k'', 0) \<in> set (new_calls rstate_empty (snd (pnHandler codec_example pvrs_example Background [1] rstate_empty)))"
    unfolding h0 by fastforce
  from t2 m(3) mv have c: "(''radarr'', 0) \<in> set (new_calls rstate_empty (snd (pnHandler codec_example pvrs_example Background [2] rstate_empty)))"
    unfolding h0 by fastforce
  from t1 have d: "heap (snd (pnHandler codec_example pvrs_example Background [1] rstate_empty)) = [item_tv]"
    unfolding h0 by simp
  from d1 d2 a b c d show ?thesis by blast
qed

section \<open>Routing: payloads that do not decode\<close>

lemma wf_rstate_routine:
  assumes "wf_rstate s"
  shows "wf_rstate (routine u pvrs cx data s)"
proof (cases "Unmarshal u data")
  case (Inl err)
  have "list_all (\<lambda>(name, a). a < Suc (length (heap s))) (queued s)"
    using assms unfolding wf_rstate_def list_all_iff by auto
  then show ?thesis
    by (simp add: routine_Inl [OF Inl] wf_rstate_def)
next
  case (Inr item)
  have "list_all (\<lambda>(name, a). a < Suc (length (heap s))) (queued s)"
    using assms unfolding wf_rstate_def list_all_iff by auto
  then show ?thesis
    by (auto simp add: routine_Inr [OF Inr] wf_rstate_def list_all_iff)
qed

lemma delivered_old:
  assumes "wf_rstate s"
  shows "map (\<lambda>(name, a). (name, (heap s @ cell) ! a)) (queued s) = delivered s"
  unfolding delivered_def
proof (rule map_cong [OF refl])
  fix x assume x: "x \<in> set (queued s)"
  obtain name a where na: "x = (name, a)" by (cases x)
  from assms x na have "a < length (heap s)"
    unfolding wf_rstate_def list_all_iff by auto
  then show "(case x of (name, a) \<Rightarrow> (name, (heap s @ cell) ! a)) =
             (case x of (name, a) \<Rightarrow> (name, heap s ! a))"
    unfolding na by (simp add: nth_append)
qed

lemma delivered_routine:
  assumes "wf_rstate s"
  shows "delivered (routine u pvrs cx data s) = delivered s @ routed u pvrs data"
proof (cases "Unmarshal u data")
  case (Inl err)
  show ?thesis
    using delivered_old [OF assms, of "[zeroFeedItem]"]
    by (simp add: routine_Inl [OF Inl] Inl delivered_def)
next
  case (Inr item)
  show ?thesis
    using delivered_old [OF assms, of "[item]"]
    by (simp add: routine_Inr [OF Inr] Inr delivered_def case_prod_unfold comp_def)
qed

lemma deliver_all_pnHandler:
  "deliver_all (pnHandler u pvrs) cx msgs s =
     (replicate (length msgs) None, fold (routine u pvrs cx) msgs s)"
  by (induction msgs arbitrary: s) (simp_all add: pnHandler_def)

lemma wf_rstate_fold:
  "wf_rstate s \<Longrightarrow> wf_rstate (fold (routine u pvrs cx) msgs s)"
  by (induction msgs arbitrary: s) (simp_all add: wf_rstate_routine)

lemma delivered_fold:
  "wf_rstate s \<Longrightarrow>
   delivered (fold (routine u pvrs cx) msgs s) = delivered s @ concat (map (routed u pvrs) msgs)"
  by (induction msgs arbitrary: s) (simp_all add: wf_rstate_routine delivered_routine)

text \<open>
  C2. When a payload does not decode, the handler returns \<open>nil\<close> to the library, no
  consumer is called, and one error line is logged. In a sequence of messages, every
  invocation of the handler returns \<open>nil\<close>, and what the consumers are handed is the
  same, consumer by consumer and item by item, as if the malformed message had not been
  in the sequence. The state the sequence starts from is any state in which the pointers
  handed out so far are allocated cells: the empty state is one, and
  \<open>wf_rstate_routine\<close> shows that the routine keeps it so.
\<close>

theorem malformed_payload_dropped:
  assumes bad: "Unmarshal u bad = Inl err" and wf: "wf_rstate s"
  shows "fst (pnHandler u pvrs cx bad s) = None \<and>
         queued (snd (pnHandler u pvrs cx bad s)) = queued s \<and>
         logged (snd (pnHandler u pvrs cx bad s)) =
            logged s @ [''Failed decoding feed item from peernet''] \<and>
         fst (deliver_all (pnHandler u pvrs) cx (before @ bad # after) s) =
            replicate (Suc (length before + length after)) None \<and>
         delivered (snd (deliver_all (pnHandler u pvrs) cx (before @ bad # after) s)) =
            delivered (snd (deliver_all (pnHandler u pvrs) cx (before @ after) s))"
proof -
  have r: "routed u pvrs bad = []" by (simp add: bad)
  have a: "fst (pnHandler u pvrs cx bad s) = None" by (simp add: pnHandler_def)
  have b: "queued (snd (pnHandler u pvrs cx bad s)) = queued s"
    by (simp add: pnHandler_def routine_Inl [OF bad])
  have c: "logged (snd (pnHandler u pvrs cx bad s)) =
            logged s @ [''Failed decoding feed item from peernet'']"
    by (simp add: pnHandler_def routine_Inl [OF bad])
  have d: "fst (deliver_all (pnHandler u pvrs) cx (before @ bad # after) s) =
            replicate (Suc (length before + length after)) None"
    by (simp add: deliver_all_pnHandler)
  have e: "delivered (snd (deliver_all (pnHandler u pvrs) cx (before @ bad # after) s)) =
            delivered (snd (deliver_all (pnHandler u pvrs) cx (before @ after) s))"
    unfolding deliver_all_pnHandler snd_conv delivered_fold [OF wf] by (simp add: r)
  from a b c d e show ?thesis by blast
qed

theorem malformed_payload_dropped_witness:
  "Unmarshal codec_example [0] = Inl (Errorf ''unexpected end of JSON input'') \<and>
   wf_rstate rstate_empty \<and>
   pnHandler codec_example pvrs_example Background [0] rstate_empty =
     (None, \<lparr>heap = [zeroFeedItem], logged = [''Failed decoding feed item from peernet''], queued = []\<rparr>) \<and>
   delivered (snd (deliver_all (pnHandler codec_example pvrs_example) Background [[1], [0], [2]] rstate_empty))
     = [(''sonarr'', item_tv), (''sonarr4k'', item_tv), (''radarr'', item_movie)]"
proof -
  have bad: "Unmarshal codec_example [0] = Inl (Errorf ''unexpected end of JSON input'')"
    by (simp add: codec_example_def)
  have wf: "wf_rstate rstate_empty"
    by (simp add: wf_rstate_def rstate_empty_def)
  note t = malformed_payload_dropped [OF bad wf, of pvrs_example Background "[[1]]" "[[2]]"]
  have h: "pnHandler codec_example pvrs_example Background [0] rstate_empty =
     (None, \<lparr>heap = [zeroFeedItem], logged = [''Failed decoding feed item from peernet''], queued = []\<rparr>)"
    by (simp add: pnHandler_def routine_Inl [OF bad] rstate_empty_def)
  have d: "Unmarshal codec_example [1] = Inr item_tv"
          "Unmarshal codec_example [2] = Inr item_movie"
    by (simp_all add: codec_example_def)
  have q: "queues_item codec_example item_tv (PVR ''sonarr'')"
          "\<not> queues_item codec_example item_tv (PVR ''radarr'')"
          "\<not> queues_item codec_example item_movie (PVR ''sonarr'')"
          "queues_item codec_example item_movie (PVR ''radarr'')"
    by (simp_all add: queues_item_def item_tv_def item_movie_def codec_example_def)
  have r: "delivered (snd (deliver_all (pnHandler codec_example pvrs_example) Background ([[1]] @ [[2]]) rstate_empty))
     = [(''sonarr'', item_tv), (''sonarr4k'', item_tv), (''radarr'', item_movie)]"
    unfolding deliver_all_pnHandler snd_conv delivered_fold [OF wf]
    by (simp add: d q pvrs_example_def delivered_def rstate_empty_def)
  from t r have "delivered (snd (deliver_all (pnHandler codec_example pvrs_example) Background ([[1]] @ [0] # [[2]]) rstate_empty))
     = [(''sonarr'', item_tv), (''sonarr4k'', item_tv), (''radarr'', item_movie)]"
    by simp
  with bad wf h show ?thesis by simp
qed

section \<open>The run path: subscriptions and bootstrap\<close>

lemma New_trace:
  "snd (New lib c []) = [] \<and> isl (fst (New lib c [])) \<or>
   (\<exists>opts. snd (New lib c []) = [Ev_NewHost opts])"
  by (simp add: New_def Let_def split: sum.splits)

lemma Bootstrap_trace:
  "Bootstrap lib n tr = (r, tr') \<Longrightarrow>
   \<exists>ev. tr' = tr @ ev \<and> subscribed_topics ev = [] \<and> callbacks_for t ev = [] \<and>
        (ev = [] \<or> (\<exists>ev'. ev = Ev_LogDebug ''Connecting to peer network'' # Ev_NewMultiaddr (BootstrapNode (cfg n)) # ev'))"
  by (auto simp add: Bootstrap_def Let_def split: sum.splits option.splits if_splits)

lemma subscribed_topics_append:
  "subscribed_topics (a @ b) = subscribed_topics a @ subscribed_topics b"
  by (induction a rule: subscribed_topics.induct) simp_all

lemma callbacks_for_append:
  "callbacks_for t (a @ b) = callbacks_for t a @ callbacks_for t b"
  by (induction t a rule: callbacks_for.induct) simp_all

text \<open>
  C8. In every run of the path the topics subscribed to are a prefix of \<open>sonarr\<close>,
  \<open>radarr\<close>, so no topic is subscribed twice. Whenever \<open>Bootstrap\<close> reaches for
  the bootstrap peer, both subscriptions were made before its first step, each once,
  and both had returned \<open>nil\<close>; and whenever the path goes on with a node, both
  topics have been subscribed, each once.
\<close>

theorem subscriptions_precede_bootstrap:
  "(subscribed_topics (snd (run_peernet lib u c pvrs [])) = [] \<or>
    subscribed_topics (snd (run_peernet lib u c pvrs [])) = [''sonarr''] \<or>
    subscribed_topics (snd (run_peernet lib u c pvrs [])) = [''sonarr'', ''radarr'']) \<and>
   ((\<exists>e \<in> set (snd (run_peernet lib u c pvrs [])). bootstrap_event e) \<longrightarrow>
      subscribed_topics (takeWhile (\<lambda>e. \<not> bootstrap_event e) (snd (run_peernet lib u c pvrs [])))
        = [''sonarr'', ''radarr''] \<and>
      subscribed_topics (snd (run_peernet lib u c pvrs [])) = [''sonarr'', ''radarr''] \<and>
      (\<exists>pn. fst (New lib c []) = Inr pn \<and>
            AddBroadcastPubSub lib (host pn) ''sonarr'' = None \<and>
            AddBroadcastPubSub lib (host pn) ''radarr'' = None)) \<and>
   (\<forall>pn. fst (run_peernet lib u c pvrs []) = Some pn \<longrightarrow>
      subscribed_topics (snd (run_peernet lib u c pvrs [])) = [''sonarr'', ''radarr''])"
proof (cases "New lib c []")
  case (Pair r tr0)
  show ?thesis
  proof (cases r)
    case (Inl err)
    with Pair New_trace [of lib c] have "tr0 = [] \<or> (\<exists>opts. tr0 = [Ev_NewHost opts])"
      by auto
    then show ?thesis
      using Pair Inl by (auto simp add: run_peernet_def)
  next
    case (Inr pn)
    with Pair New_trace [of lib c] obtain opts where tr0: "tr0 = [Ev_NewHost opts]"
      by auto
    obtain rb trb where B: "Bootstrap lib pn
        [Ev_NewHost opts, Ev_AddBroadcastPubSub ''sonarr'' (pnHandler u pvrs),
         Ev_AddBroadcastPubSub ''radarr'' (pnHandler u pvrs)] = (rb, trb)"
      by (cases "Bootstrap lib pn
        [Ev_NewHost opts, Ev_AddBroadcastPubSub ''sonarr'' (pnHandler u pvrs),
         Ev_AddBroadcastPubSub ''radarr'' (pnHandler u pvrs)]")
    from Bootstrap_trace [OF B, of "''sonarr''"] obtain ev where
      ev: "trb = [Ev_NewHost opts, Ev_AddBroadcastPubSub ''sonarr'' (pnHandler u pvrs),
         Ev_AddBroadcastPubSub ''radarr'' (pnHandler u pvrs)] @ ev"
         "subscribed_topics ev = []"
         "ev = [] \<or> (\<exists>ev'. ev = Ev_LogDebug ''Connecting to peer network'' # Ev_NewMultiaddr (BootstrapNode (cfg pn)) # ev')"
      by blast
    show ?thesis
      using Pair Inr tr0 B ev
      by (auto simp add: run_peernet_def Subscribe_def subscribed_topics_append
          split: option.splits)
  qed
qed

theorem subscriptions_precede_bootstrap_witness:
  "Ev_JoinOverlay \<in> set (snd (run_peernet lib_example codec_example cfg_example pvrs_example [])) \<and>
   subscribed_topics (takeWhile (\<lambda>e. \<not> bootstrap_event e)
       (snd (run_peernet lib_example codec_example cfg_example pvrs_example [])))
     = [''sonarr'', ''radarr''] \<and>
   subscribed_topics (snd (run_peernet lib_example codec_example cfg_example pvrs_example []))
     = [''sonarr'', ''radarr''] \<and>
   fst (run_peernet lib_example codec_example cfg_example pvrs_example []) \<noteq> None"
proof -
  let ?run = "run_peernet lib_example codec_example cfg_example pvrs_example []"
  have j: "Ev_JoinOverlay \<in> set (snd ?run)" and n: "fst ?run \<noteq> None"
    by (simp_all add: run_peernet_def New_def Subscribe_def Bootstrap_def Let_def
        lib_example_def cfg_example_def)
  have "\<exists>e \<in> set (snd ?run). bootstrap_event e"
    by (rule bexI [OF _ j]) simp
  with subscriptions_precede_bootstrap [of lib_example codec_example cfg_example pvrs_example] j n
  show ?thesis by blast
qed

section \<open>The run path: one handler for both topics\<close>

lemma callbacks_run_peernet:
  "set (callbacks_for t (snd (run_peernet lib u c pvrs []))) \<subseteq> {pnHandler u pvrs}"
proof (cases "New lib c []")
  case (Pair r tr0)
  show ?thesis
  proof (cases r)
    case (Inl err)
    with Pair New_trace [of lib c] have "tr0 = [] \<or> (\<exists>opts. tr0 = [Ev_NewHost opts])"
      by auto
    then show ?thesis
      using Pair Inl by (auto simp add: run_peernet_def)
  next
    case (Inr pn)
    with Pair New_trace [of lib c] obtain opts where tr0: "tr0 = [Ev_NewHost opts]"
      by auto
    obtain rb trb where B: "Bootstrap lib pn
        [Ev_NewHost opts, Ev_AddBroadcastPubSub ''sonarr'' (pnHandler u pvrs),
         Ev_AddBroadcastPubSub ''radarr'' (pnHandler u pvrs)] = (rb, trb)"
      by (cases "Bootstrap lib pn
        [Ev_NewHost opts, Ev_AddBroadcastPubSub ''sonarr'' (pnHandler u pvrs),
         Ev_AddBroadcastPubSub ''radarr'' (pnHandler u pvrs)]")
    from Bootstrap_trace [OF B, of t] obtain ev where
      ev: "trb = [Ev_NewHost opts, Ev_AddBroadcastPubSub ''sonarr'' (pnHandler u pvrs),
         Ev_AddBroadcastPubSub ''radarr'' (pnHandler u pvrs)] @ ev"
         "callbacks_for t ev = []"
      by blast
    show ?thesis
      using Pair Inr tr0 B ev
      by (auto simp add: run_peernet_def Subscribe_def callbacks_for_append
          split: option.splits if_splits)
  qed
qed

lemma queues_item_cong:
  assumes "TvdbId item = TvdbId item'" "ImdbId item = ImdbId item'"
    "TmdbId item = TmdbId item'" "Category item = Category item'"
  shows "queues_item u item p = queues_item u item' p"
  using assms by (simp add: queues_item_def)

text \<open>
  C10. Whatever callback the run path registered for the topic \<open>sonarr\<close> and whatever
  callback it registered for the topic \<open>radarr\<close>, they do the same on the same payload
  in the same state: same return value, same calls of the consumers. And the consumers
  that are called depend on the identifiers and the category of the decoded item only:
  two payloads whose items agree on these reach the same consumers, on either topic and
  in any two states.
\<close>

theorem routing_independent_of_topic:
  "\<forall>h1 \<in> set (callbacks_for ''sonarr'' (snd (run_peernet lib u c pvrs []))).
   \<forall>h2 \<in> set (callbacks_for ''radarr'' (snd (run_peernet lib u c pvrs []))).
      h1 cx data s = h2 cx data s \<and>
      (\<forall>item item' data' cx' s'.
          Unmarshal u data = Inr item \<and> Unmarshal u data' = Inr item' \<and>
          TvdbId item = TvdbId item' \<and> ImdbId item = ImdbId item' \<and>
          TmdbId item = TmdbId item' \<and> Category item = Category item' \<longrightarrow>
          receivers s (snd (h1 cx data s)) = receivers s' (snd (h2 cx' data' s')))"
proof (intro ballI)
  fix h1 h2
  assume "h1 \<in> set (callbacks_for ''sonarr'' (snd (run_peernet lib u c pvrs [])))"
    and "h2 \<in> set (callbacks_for ''radarr'' (snd (run_peernet lib u c pvrs [])))"
  with callbacks_run_peernet [of "''sonarr''" lib u c pvrs]
       callbacks_run_peernet [of "''radarr''" lib u c pvrs]
  have h: "h1 = pnHandler u pvrs" "h2 = pnHandler u pvrs"
    by blast+
  have same: "receivers s (snd (pnHandler u pvrs cx data s)) = receivers s' (snd (pnHandler u pvrs cx' data' s'))"
    if "Unmarshal u data = Inr item" "Unmarshal u data' = Inr item'"
       "TvdbId item = TvdbId item'" "ImdbId item = ImdbId item'"
       "TmdbId item = TmdbId item'" "Category item = Category item'"
    for item item' data' cx' s'
    using queues_item_cong [OF that(3-6), of u]
    by (simp add: pnHandler_def receivers_routine [OF that(1)] receivers_routine [OF that(2)])
  show "h1 cx data s = h2 cx data s \<and>
      (\<forall>item item' data' cx' s'.
          Unmarshal u data = Inr item \<and> Unmarshal u data' = Inr item' \<and>
          TvdbId item = TvdbId item' \<and> ImdbId item = ImdbId item' \<and>
          TmdbId item = TmdbId item' \<and> Category item = Category item' \<longrightarrow>
          receivers s (snd (h1 cx data s)) = receivers s' (snd (h2 cx' data' s')))"
    unfolding h using same by blast
qed

theorem routing_independent_of_topic_witness:
  "callbacks_for ''sonarr'' (snd (run_peernet lib_example codec_example cfg_example pvrs_example [])) \<noteq> [] \<and>
   callbacks_for ''radarr'' (snd (run_peernet lib_example codec_example cfg_example pvrs_example [])) \<noteq> [] \<and>
   hd (callbacks_for ''sonarr'' (snd (run_peernet lib_example codec_example cfg_example pvrs_example [])))
      Background [1] rstate_empty
   = hd (callbacks_for ''radarr'' (snd (run_peernet lib_example codec_example cfg_example pvrs_example [])))
      Background [1] rstate_empty \<and>
   receivers rstate_empty
     (snd (hd (callbacks_for ''sonarr'' (snd (run_peernet lib_example codec_example cfg_example pvrs_example [])))
        Background [1] rstate_empty))
   = receivers (rstate_empty\<lparr>logged := [''started'']\<rparr>)
     (snd (hd (callbacks_for ''radarr'' (snd (run_peernet lib_example codec_example cfg_example pvrs_example [])))
        Background [1] (rstate_empty\<lparr>logged := [''started'']\<rparr>)))"
proof -
  let ?tr = "snd (run_peernet lib_example codec_example cfg_example pvrs_example [])"
  have a: "callbacks_for ''sonarr'' ?tr \<noteq> []" and b: "callbacks_for ''radarr'' ?tr \<noteq> []"
    by (simp_all add: run_peernet_def New_def Subscribe_def Bootstrap_def Let_def
        lib_example_def cfg_example_def)
  have d: "Unmarshal codec_example [1] = Inr item_tv"
    by (simp add: codec_example_def)
  from a b have "hd (callbacks_for ''sonarr'' ?tr) \<in> set (callbacks_for ''sonarr'' ?tr)"
    and "hd (callbacks_for ''radarr'' ?tr) \<in> set (callbacks_for ''radarr'' ?tr)"
    by simp_all
  with routing_independent_of_topic [of lib_example codec_example cfg_example pvrs_example Background "[1]" rstate_empty]
  have "hd (callbacks_for ''sonarr'' ?tr) Background [1] rstate_empty
      = hd (callbacks_for ''radarr'' ?tr) Background [1] rstate_empty"
    and "receivers rstate_empty (snd (hd (callbacks_for ''sonarr'' ?tr) Background [1] rstate_empty))
      = receivers (rstate_empty\<lparr>logged := [''started'']\<rparr>)
          (snd (hd (callbacks_for ''radarr'' ?tr) Background [1] (rstate_empty\<lparr>logged := [''started'']\<rparr>)))"
    using d by blast+
  with a b show ?thesis by blast
qed

section \<open>Shutdown: the schedule respects the dependencies\<close>

lemma stop_schedule_components:
  "map fst (stop_schedule stop_time st t) = components st"
proof (induction st arbitrary: t)
  case (Merge ss)
  then show ?case by (simp add: map_concat comp_def cong: map_cong)
next
  case (DependsOn p cs)
  then show ?case by (simp add: map_concat comp_def Let_def cong: map_cong)
qed simp_all

lemma entry_component:
  "(n, sg, fn) \<in> set (stop_schedule stop_time st t) \<Longrightarrow> n \<in> set (components st)"
  using stop_schedule_components [of stop_time st t, symmetric]
  by (metis fst_conv image_eqI set_map)

lemma finished_by_lower: "t \<le> finished_by t sch"
  by (induction t sch rule: finished_by.induct) (simp_all add: max.coboundedI2)

lemma finished_by_upper: "(n, sg, fn) \<in> set sch \<Longrightarrow> fn \<le> finished_by t sch"
  by (induction t sch rule: finished_by.induct) (auto simp add: max.coboundedI2)

lemma stop_schedule_bounds:
  "(n, sg, fn) \<in> set (stop_schedule stop_time st t) \<Longrightarrow> t \<le> sg \<and> sg \<le> fn"
proof (induction st arbitrary: t)
  case (Component x)
  then show ?case by (simp add: add_increasing2)
next
  case Empty
  then show ?case by simp
next
  case (Merge ss)
  then show ?case by auto
next
  case (DependsOn p cs)
  let ?deps = "concat (map (\<lambda>s. stop_schedule stop_time s t) cs)"
  from DependsOn.prems consider
    (dep) "(n, sg, fn) \<in> set ?deps" |
    (par) "(n, sg, fn) \<in> set (stop_schedule stop_time p (finished_by t ?deps))"
    by (auto simp add: Let_def)
  then show ?case
  proof cases
    case dep
    then show ?thesis using DependsOn.IH(2) by auto
  next
    case par
    from DependsOn.IH(1) [OF par] finished_by_lower [of t ?deps]
    show ?thesis by (meson order_trans)
  qed
qed

lemma depends_components:
  "(c, d) \<in> set (depends st) \<Longrightarrow> c \<in> set (components st) \<and> d \<in> set (components st)"
proof (induction st)
  case (Merge ss)
  then show ?case by fastforce
next
  case (DependsOn p cs)
  then show ?case by fastforce
qed simp_all

lemma distinct_concat_same:
  "distinct (concat (map f ss)) \<Longrightarrow> s \<in> set ss \<Longrightarrow> s' \<in> set ss \<Longrightarrow>
   x \<in> set (f s) \<Longrightarrow> x \<in> set (f s') \<Longrightarrow> s = s'"
  by (induction ss) auto

lemma distinct_concat_member:
  "distinct (concat (map f ss)) \<Longrightarrow> s \<in> set ss \<Longrightarrow> distinct (f s)"
  by (induction ss) auto

lemma order_in_list:
  assumes IH: "\<And>s t c d sc fc sd fd. s \<in> set ss \<Longrightarrow> distinct (components s) \<Longrightarrow>
                 (c, d) \<in> set (depends s) \<Longrightarrow>
                 (c, sc, fc) \<in> set (stop_schedule stop_time s t) \<Longrightarrow>
                 (d, sd, fd) \<in> set (stop_schedule stop_time s t) \<Longrightarrow> fd \<le> sc"
    and dist: "distinct (concat (map components ss))"
    and edge: "(c, d) \<in> set (concat (map depends ss))"
    and ec: "(c, sc, fc) \<in> set (concat (map (\<lambda>s. stop_schedule stop_time s t) ss))"
    and ed: "(d, sd, fd) \<in> set (concat (map (\<lambda>s. stop_schedule stop_time s t) ss))"
  shows "fd \<le> sc"
proof -
  from edge obtain s where s: "s \<in> set ss" "(c, d) \<in> set (depends s)" by auto
  from ec obtain s1 where s1: "s1 \<in> set ss" "(c, sc, fc) \<in> set (stop_schedule stop_time s1 t)"
    by auto
  from ed obtain s2 where s2: "s2 \<in> set ss" "(d, sd, fd) \<in> set (stop_schedule stop_time s2 t)"
    by auto
  from depends_components [OF s(2)] have cd: "c \<in> set (components s)" "d \<in> set (components s)"
    by simp_all
  have "s1 = s"
    using distinct_concat_same [OF dist s1(1) s(1) entry_component [OF s1(2)] cd(1)] .
  moreover have "s2 = s"
    using distinct_concat_same [OF dist s2(1) s(1) entry_component [OF s2(2)] cd(2)] .
  ultimately show ?thesis
    using IH [OF s(1) distinct_concat_member [OF dist s(1)] s(2)] s1(2) s2(2) by blast
qed

lemma stop_schedule_order:
  "distinct (components st) \<Longrightarrow> (c, d) \<in> set (depends st) \<Longrightarrow>
   (c, sc, fc) \<in> set (stop_schedule stop_time st t) \<Longrightarrow>
   (d, sd, fd) \<in> set (stop_schedule stop_time st t) \<Longrightarrow> fd \<le> sc"
proof (induction st arbitrary: t c d sc fc sd fd)
  case (Component x)
  then show ?case by simp
next
  case Empty
  then show ?case by simp
next
  case (Merge ss)
  show ?case
  proof (rule order_in_list [where ss = ss and t = t and stop_time = stop_time])
    show "distinct (concat (map components ss))" using Merge.prems(1) by simp
    show "(c, d) \<in> set (concat (map depends ss))" using Merge.prems(2) by simp
    show "(c, sc, fc) \<in> set (concat (map (\<lambda>s. stop_schedule stop_time s t) ss))"
      using Merge.prems(3) by simp
    show "(d, sd, fd) \<in> set (concat (map (\<lambda>s. stop_schedule stop_time s t) ss))"
      using Merge.prems(4) by simp
  qed (rule Merge.IH)
next
  case (DependsOn p cs)
  let ?deps = "concat (map (\<lambda>s. stop_schedule stop_time s t) cs)"
  let ?t' = "finished_by t ?deps"
  let ?par = "stop_schedule stop_time p ?t'"
  have sch: "stop_schedule stop_time (DependsOn p cs) t = ?deps @ ?par"
    by (simp add: Let_def)
  from DependsOn.prems(1) have dp: "distinct (components p)"
    and dc: "distinct (concat (map components cs))"
    and disj: "set (components p) \<inter> set (concat (map components cs)) = {}"
    by auto
  have deps_comp: "n \<in> set (concat (map components cs))" if "(n, sg, fn) \<in> set ?deps" for n sg fn
    using that entry_component by fastforce
  have par_comp: "n \<in> set (components p)" if "(n, sg, fn) \<in> set ?par" for n sg fn
    using that by (rule entry_component)
  have in_par: "(n, sg, fn) \<in> set ?par"
    if "n \<in> set (components p)" "(n, sg, fn) \<in> set (stop_schedule stop_time (DependsOn p cs) t)" for n sg fn
    using that deps_comp disj unfolding sch by fastforce
  have in_deps: "(n, sg, fn) \<in> set ?deps"
    if "n \<in> set (concat (map components cs))" "(n, sg, fn) \<in> set (stop_schedule stop_time (DependsOn p cs) t)" for n sg fn
    using that par_comp disj unfolding sch by fastforce
  from DependsOn.prems(2) consider
    (inner) "(c, d) \<in> set (concat (map depends cs))" |
    (outer) "(c, d) \<in> set (depends p)" |
    (cross) "c \<in> set (components p)" "d \<in> set (concat (map components cs))"
    by auto
  then show ?case
  proof cases
    case inner
    then obtain s where s: "s \<in> set cs" "(c, d) \<in> set (depends s)" by auto
    from depends_components [OF s(2)] s(1)
    have "c \<in> set (concat (map components cs))" "d \<in> set (concat (map components cs))"
      by auto
    then have "(c, sc, fc) \<in> set ?deps" "(d, sd, fd) \<in> set ?deps"
      using in_deps DependsOn.prems(3,4) by blast+
    with inner dc show ?thesis
      by (rule_tac order_in_list [where ss = cs and t = t and stop_time = stop_time and c = c and d = d])
         (auto intro: DependsOn.IH(2))
  next
    case outer
    from depends_components [OF outer]
    have "(c, sc, fc) \<in> set ?par" "(d, sd, fd) \<in> set ?par"
      using in_par DependsOn.prems(3,4) by blast+
    with DependsOn.IH(1) [OF dp outer] show ?thesis by blast
  next
    case cross
    have "(c, sc, fc) \<in> set ?par" using in_par cross(1) DependsOn.prems(3) by blast
    then have "?t' \<le> sc" by (rule stop_schedule_bounds [THEN conjunct1])
    moreover have "(d, sd, fd) \<in> set ?deps" using in_deps cross(2) DependsOn.prems(4) by blast
    then have "fd \<le> ?t'" by (rule finished_by_upper)
    ultimately show ?thesis by (rule order_trans [rotated])
  qed
qed

lemma finished_by_le_iff:
  "finished_by t sch \<le> D \<longleftrightarrow> t \<le> D \<and> (\<forall>(n, sg, fn) \<in> set sch. fn \<le> D)"
  by (induction t sch rule: finished_by.induct) auto

lemma pending_set:
  "set (map fst (filter (\<lambda>(n, sg, fn). D < fn) sch)) =
     {n. \<exists>sg fn. (n, sg, fn) \<in> set sch \<and> D < fn}"
  by force

lemma appCtx_deadline:
  "deadline (WithTimeout Background (60 * Second)) = Some 60000000000"
  "enat (nat (60 * Second)) = 60000000000"
  by (simp_all add: Second_def numeral_eq_enat)

lemma main_shutdown_result:
  "fst (main_shutdown stop_time pvrStates rssState) =
     Shutdown stop_time (appState pvrStates rssState) (WithTimeout Background (60 * Second))"
  by (simp add: main_shutdown_def Let_def)

lemma Shutdown_schedule:
  "schedule (Shutdown stop_time st cx) = stop_schedule stop_time st 0"
  by (simp add: Shutdown_def Let_def split: option.splits)

section \<open>Shutdown: the deadline and the order in the program\<close>

text \<open>
  C4. At the end of \<open>main\<close>, \<open>Shutdown\<close> is called on the merged states of the
  consumers' processors made dependent on the state of the rss scheduler, with a context
  whose timeout is 60 seconds. The call returns, and by the deadline at the latest: with
  \<open>nil\<close> exactly when every component has finished by then, and otherwise with the
  timeout that names the components that have not. Every component appears once in the
  schedule and is signalled before it finishes. A component is signalled to stop only
  once every component it depends on has finished stopping; every component of a
  processor's state depends on every component of the scheduler's state, so the scheduler
  has finished stopping when a processor is signalled. The components are distinct, as
  the states of separately started components are.
\<close>

theorem shutdown_deadline_and_order:
  assumes dist: "distinct (components (appState pvrStates rssState))"
  shows "fst (main_shutdown stop_time pvrStates rssState) =
           Shutdown stop_time (DependsOn (Merge pvrStates) [rssState])
             (WithTimeout Background 60000000000) \<and>
         outcome (fst (main_shutdown stop_time pvrStates rssState)) \<noteq> Blocked \<and>
         returned_at (fst (main_shutdown stop_time pvrStates rssState)) \<le> 60000000000 \<and>
         (outcome (fst (main_shutdown stop_time pvrStates rssState)) = Completed \<longleftrightarrow>
            (\<forall>(n, sg, fn) \<in> set (schedule (fst (main_shutdown stop_time pvrStates rssState))).
               fn \<le> 60000000000)) \<and>
         (\<forall>pending. outcome (fst (main_shutdown stop_time pvrStates rssState)) = TimedOut pending \<longrightarrow>
            set pending =
              {n. \<exists>sg fn. (n, sg, fn) \<in> set (schedule (fst (main_shutdown stop_time pvrStates rssState)))
                          \<and> 60000000000 < fn}) \<and>
         map fst (schedule (fst (main_shutdown stop_time pvrStates rssState)))
           = components (appState pvrStates rssState) \<and>
         (\<forall>(n, sg, fn) \<in> set (schedule (fst (main_shutdown stop_time pvrStates rssState))). sg \<le> fn) \<and>
         (\<forall>(c, d) \<in> set (depends (appState pvrStates rssState)). \<forall>sc fc sd fd.
            (c, sc, fc) \<in> set (schedule (fst (main_shutdown stop_time pvrStates rssState))) \<and>
            (d, sd, fd) \<in> set (schedule (fst (main_shutdown stop_time pvrStates rssState)))
            \<longrightarrow> fd \<le> sc) \<and>
         (\<forall>c \<in> set (concat (map components pvrStates)). \<forall>d \<in> set (components rssState).
            (c, d) \<in> set (depends (appState pvrStates rssState)) \<and>
            (\<forall>sc fc sd fd.
               (c, sc, fc) \<in> set (schedule (fst (main_shutdown stop_time pvrStates rssState))) \<and>
               (d, sd, fd) \<in> set (schedule (fst (main_shutdown stop_time pvrStates rssState)))
               \<longrightarrow> fd \<le> sc))"
proof -
  let ?app = "appState pvrStates rssState"
  let ?r = "fst (main_shutdown stop_time pvrStates rssState)"
  let ?sch = "stop_schedule stop_time ?app 0"
  let ?D = "60000000000 :: enat"
  have r: "?r = Shutdown stop_time ?app (WithTimeout Background (60 * Second))"
    by (rule main_shutdown_result)
  have sch: "schedule ?r = ?sch"
    unfolding r by (rule Shutdown_schedule)
  have c1: "?r = Shutdown stop_time (DependsOn (Merge pvrStates) [rssState])
             (WithTimeout Background 60000000000)"
    unfolding r by (simp add: appState_def Second_def)
  have out: "outcome ?r = (if finished_by 0 ?sch \<le> ?D then Completed
               else TimedOut (map fst (filter (\<lambda>(n, sg, fn). ?D < fn) ?sch)))"
    and ret: "returned_at ?r = (if finished_by 0 ?sch \<le> ?D then finished_by 0 ?sch else ?D)"
    unfolding r by (simp_all add: Shutdown_def Let_def appCtx_deadline)
  have c2: "outcome ?r \<noteq> Blocked"
    unfolding out by simp
  have c3: "returned_at ?r \<le> ?D"
    unfolding ret by simp
  have c4: "outcome ?r = Completed \<longleftrightarrow> (\<forall>(n, sg, fn) \<in> set (schedule ?r). fn \<le> ?D)"
    unfolding out sch by (simp add: finished_by_le_iff)
  have c5: "\<forall>pending. outcome ?r = TimedOut pending \<longrightarrow>
      set pending = {n. \<exists>sg fn. (n, sg, fn) \<in> set (schedule ?r) \<and> ?D < fn}"
    unfolding out sch using pending_set [of ?D ?sch] by simp
  have c6: "map fst (schedule ?r) = components ?app"
    unfolding sch by (rule stop_schedule_components)
  have c7: "\<forall>(n, sg, fn) \<in> set (schedule ?r). sg \<le> fn"
    unfolding sch using stop_schedule_bounds by fastforce
  have ord: "fd \<le> sc"
    if "(c, d) \<in> set (depends ?app)" "(c, sc, fc) \<in> set (schedule ?r)"
       "(d, sd, fd) \<in> set (schedule ?r)" for c d sc fc sd fd
    using stop_schedule_order [OF dist that(1)] that(2,3) unfolding sch by blast
  have c8: "\<forall>(c, d) \<in> set (depends ?app). \<forall>sc fc sd fd.
            (c, sc, fc) \<in> set (schedule ?r) \<and> (d, sd, fd) \<in> set (schedule ?r) \<longrightarrow> fd \<le> sc"
    using ord by blast
  have edge: "(c, d) \<in> set (depends ?app)"
    if "c \<in> set (concat (map components pvrStates))" "d \<in> set (components rssState)" for c d
    using that by (simp add: appState_def)
  have c9: "\<forall>c \<in> set (concat (map components pvrStates)). \<forall>d \<in> set (components rssState).
            (c, d) \<in> set (depends ?app) \<and>
            (\<forall>sc fc sd fd.
               (c, sc, fc) \<in> set (schedule ?r) \<and> (d, sd, fd) \<in> set (schedule ?r) \<longrightarrow> fd \<le> sc)"
    using edge ord by blast
  from c1 c2 c3 c4 c5 c6 c7 c8 c9 show ?thesis by blast
qed

theorem shutdown_deadline_and_order_witness:
  "distinct (components (appState pvrStates_example rssState_example)) \<and>
   schedule (fst (main_shutdown stop_time_example pvrStates_example rssState_example)) =
     [(''rss'', 0, 2000000000), (''sonarr'', 2000000000, 3000000000),
      (''radarr'', 2000000000, \<infinity>)] \<and>
   (''sonarr'', ''rss'') \<in> set (depends (appState pvrStates_example rssState_example)) \<and>
   (''radarr'', ''rss'') \<in> set (depends (appState pvrStates_example rssState_example)) \<and>
   outcome (fst (main_shutdown stop_time_example pvrStates_example rssState_example)) =
     TimedOut [''radarr''] \<and>
   outcome (fst (main_shutdown stop_time_example pvrStates_example rssState_example)) \<noteq> Blocked \<and>
   returned_at (fst (main_shutdown stop_time_example pvrStates_example rssState_example)) \<le> 60000000000"
proof -
  have d: "distinct (components (appState pvrStates_example rssState_example))"
    by (simp add: appState_def pvrStates_example_def rssState_example_def)
  note t = shutdown_deadline_and_order [OF d, of stop_time_example]
  have s: "schedule (fst (main_shutdown stop_time_example pvrStates_example rssState_example)) =
     [(''rss'', 0, 2000000000), (''sonarr'', 2000000000, 3000000000),
      (''radarr'', 2000000000, \<infinity>)]"
    by (simp add: main_shutdown_def Let_def Shutdown_def appState_def pvrStates_example_def
        rssState_example_def stop_time_example_def Second_def max_def split: option.splits)
  have e: "(''sonarr'', ''rss'') \<in> set (depends (appState pvrStates_example rssState_example))"
          "(''radarr'', ''rss'') \<in> set (depends (appState pvrStates_example rssState_example))"
    by (simp_all add: appState_def pvrStates_example_def rssState_example_def)
  from t have p: "\<forall>pending. outcome (fst (main_shutdown stop_time_example pvrStates_example rssState_example)) = TimedOut pending \<longrightarrow>
            set pending = {n. \<exists>sg fn. (n, sg, fn) \<in> set (schedule (fst (main_shutdown stop_time_example pvrStates_example rssState_example))) \<and> 60000000000 < fn}"
    by blast
  have o: "outcome (fst (main_shutdown stop_time_example pvrStates_example rssState_example)) =
     TimedOut [''radarr'']"
    by (simp add: main_shutdown_def Let_def Shutdown_def appState_def pvrStates_example_def
        rssState_example_def stop_time_example_def Second_def max_def numeral_eq_enat)
  from t have b: "outcome (fst (main_shutdown stop_time_example pvrStates_example rssState_example)) \<noteq> Blocked"
    and r: "returned_at (fst (main_shutdown stop_time_example pvrStates_example rssState_example)) \<le> 60000000000"
    by blast+
  from d s e o b r show ?thesis by blast
qed

end
